theory Spec2Isabelle
  imports Main
begin

section \<open>The relay controller of \<open>relay_controller.py\<close>\<close>

text \<open>
  The module defines two classes. \<open>RelayController\<close> owns a gpiozero \<open>LEDBoard\<close> with one
  LED per relay pin and offers per-relay and bulk switching. \<open>CapRelay\<close> inherits from it
  and adds three configuration vectors (charge, dump, null) together with the name of
  the state that was applied last.

  The gpiozero board is the only hardware the module touches. It is modelled as the list
  of the \<open>is_lit\<close> values of its LEDs: \<open>on()\<close> stores \<open>True\<close>, \<open>off()\<close> stores \<open>False\<close>,
  a freshly built board has every LED unlit (gpiozero's \<open>initial_value=False\<close>). The
  \<open>print\<close> calls have no effect on the object and are left out.

  gpiozero itself is a third-party library, not part of the module. Two of its behaviours
  are visible through the module and are modelled: the constructor \<open>LEDBoard(*pins)\<close>
  refuses some pin lists, and a call on an LED whose device can no longer be driven
  raises.

  A Python exception leaves the object as mutated so far. Every method that mutates
  therefore returns a pair: the outcome (\<open>Inl\<close> the exception, \<open>Inr\<close> the returned value)
  and the object after the call.
\<close>

subsection \<open>Exceptions\<close>

text \<open>
  Every \<open>raise\<close> of the module is a \<open>ValueError\<close>; the constructors keep the data that the
  message is formatted from.
  \<^item> \<open>RelayNumberRange m\<close>: \<open>"Relay number must be between 0 and {m}"\<close>, \<open>m = num_relays - 1\<close>;
  \<^item> \<open>ConfigLengthMismatch\<close>: \<open>"chg_config and dmp_config must use the same number of GPIO pins"\<close>;
  \<^item> \<open>ConfigPinCount n\<close>: \<open>"chg/dmp configs require {n} GPIO pins to be allocated"\<close>;
  \<^item> \<open>InvalidState name\<close>: \<open>"Invalid state: {name}"\<close>;
  \<^item> \<open>InvalidRelayState v k\<close>: \<open>"Invalid relay state {v} at position {k}"\<close>.

  Two are raised by the interpreter: \<open>IndexError\<close> by indexing the board out of range,
  \<open>AttributeError a\<close> by looking up an attribute \<open>a\<close> that no class defines.

  The last four come out of gpiozero: \<open>GPIOPinMissing\<close> (\<open>LEDBoard\<close> without any pin),
  \<open>PinInvalidPin p\<close> (the pin factory does not know pin \<open>p\<close>), \<open>GPIOPinInUse p\<close> (pin \<open>p\<close>
  is already held by a device), and \<open>HardwareError j\<close>, which stands for whatever
  \<open>on()\<close>, \<open>off()\<close> or \<open>is_lit\<close> of LED \<open>j\<close> raises when its device cannot be driven
  (\<open>GPIODeviceClosed\<close> after the device was closed, an I/O error of the pin factory).
\<close>

datatype error =
    RelayNumberRange int
  | ConfigLengthMismatch
  | ConfigPinCount nat
  | InvalidState string
  | InvalidRelayState int nat
  | IndexError
  | AttributeError string
  | GPIOPinMissing
  | PinInvalidPin int
  | GPIOPinInUse int
  | HardwareError nat

subsection \<open>Objects\<close>

record relay_controller =
  relay_pins :: "int list"
  num_relays :: nat
  board :: "bool list"

record cap_relay = relay_controller +
  chg_config :: "int list"
  dmp_config :: "int list"
  current_state :: string
  null_state :: "int list"

text \<open>
  The dictionary built by \<open>get_state_info\<close> has four fixed keys; it is a record with one
  field per key.
\<close>

record state_info =
  info_current_state :: string
  info_configuration :: "int list"
  info_relay_states :: "int list"
  info_pins :: "int list"

subsection \<open>Python primitives\<close>

text \<open>
  \<open>str.lower()\<close> on the ASCII range. The three names that \<open>set_state\<close> compares with are
  plain ASCII.
\<close>

definition lower_char :: "char \<Rightarrow> char" where
  "lower_char c =
     (let n = (of_char c :: nat)
      in if 65 \<le> n \<and> n \<le> 90 then char_of (n + 32) else c)"

definition lower :: "string \<Rightarrow> string" where
  "lower s = map lower_char s"

text \<open>
  Indexing a sequence of length \<open>n\<close> with a Python integer: a negative index counts from
  the end, anything outside raises \<open>IndexError\<close>.
\<close>

definition board_index :: "bool list \<Rightarrow> int \<Rightarrow> error + nat" where
  "board_index b i =
     (let n = int (length b); j = (if i < 0 then n + i else i)
      in if 0 \<le> j \<and> j < n then Inr (nat j) else Inl IndexError)"

subsection \<open>\<open>RelayController\<close>\<close>

definition validate_relay_number :: "'a relay_controller_scheme \<Rightarrow> int \<Rightarrow> error + unit" where
  "validate_relay_number s relay_num =
     (if \<not> (0 \<le> relay_num \<and> relay_num < int (num_relays s))
      then Inl (RelayNumberRange (int (num_relays s) - 1))
      else Inr ())"

text \<open>\<open>close\<close>: validate, then \<open>self._board[relay_num].off()\<close>.\<close>

definition close ::
  "'a relay_controller_scheme \<Rightarrow> int \<Rightarrow> (error + unit) \<times> 'a relay_controller_scheme" where
  "close s relay_num =
     (case validate_relay_number s relay_num of
        Inl e \<Rightarrow> (Inl e, s)
      | Inr _ \<Rightarrow>
          (case board_index (board s) relay_num of
             Inl e \<Rightarrow> (Inl e, s)
           | Inr j \<Rightarrow> (Inr (), s\<lparr>board := (board s)[j := False]\<rparr>)))"

text \<open>\<open>open\<close>: validate, then \<open>self._board[relay_num].on()\<close>.\<close>

definition open_relay ::
  "'a relay_controller_scheme \<Rightarrow> int \<Rightarrow> (error + unit) \<times> 'a relay_controller_scheme" where
  "open_relay s relay_num =
     (case validate_relay_number s relay_num of
        Inl e \<Rightarrow> (Inl e, s)
      | Inr _ \<Rightarrow>
          (case board_index (board s) relay_num of
             Inl e \<Rightarrow> (Inl e, s)
           | Inr j \<Rightarrow> (Inr (), s\<lparr>board := (board s)[j := True]\<rparr>)))"

text \<open>\<open>close_all\<close> and \<open>open_all\<close> walk the board itself, without any index.\<close>

definition close_all :: "'a relay_controller_scheme \<Rightarrow> 'a relay_controller_scheme" where
  "close_all s = s\<lparr>board := map (\<lambda>relay. False) (board s)\<rparr>"

definition open_all :: "'a relay_controller_scheme \<Rightarrow> 'a relay_controller_scheme" where
  "open_all s = s\<lparr>board := map (\<lambda>relay. True) (board s)\<rparr>"

text \<open>\<open>get_state\<close>: validate, then \<open>not self._board[relay_num].is_lit\<close>.\<close>

definition get_state :: "'a relay_controller_scheme \<Rightarrow> int \<Rightarrow> error + bool" where
  "get_state s relay_num =
     (case validate_relay_number s relay_num of
        Inl e \<Rightarrow> Inl e
      | Inr _ \<Rightarrow>
          (case board_index (board s) relay_num of
             Inl e \<Rightarrow> Inl e
           | Inr j \<Rightarrow> Inr (\<not> board s ! j)))"

text \<open>
  \<open>LEDBoard(*relay_pins)\<close>. The pin factory that gpiozero takes from its environment is
  made a parameter: which pin numbers it knows, and which pins other devices of the
  process hold already. gpiozero builds one \<open>LED\<close> per pin, from left to right; each
  asks the factory for its pin (\<open>PinInvalidPin\<close> when unknown) and then reserves it
  (\<open>GPIOPinInUse\<close> when held, also by an earlier LED of the same board). A board without
  any LED is refused with \<open>GPIOPinMissing\<close>. Every LED starts unlit.
\<close>

record pin_factory =
  valid_pin :: "int \<Rightarrow> bool"
  reserved_pins :: "int list"

fun LEDBoard_leds :: "pin_factory \<Rightarrow> int list \<Rightarrow> int list \<Rightarrow> error + bool list" where
  "LEDBoard_leds pf held [] = Inr []"
| "LEDBoard_leds pf held (pin # pins) =
     (if \<not> valid_pin pf pin then Inl (PinInvalidPin pin)
      else if pin \<in> set held then Inl (GPIOPinInUse pin)
      else
        (case LEDBoard_leds pf (pin # held) pins of
           Inl e \<Rightarrow> Inl e
         | Inr leds \<Rightarrow> Inr (False # leds)))"

definition LEDBoard :: "pin_factory \<Rightarrow> int list \<Rightarrow> error + bool list" where
  "LEDBoard pf pins =
     (case LEDBoard_leds pf (reserved_pins pf) pins of
        Inl e \<Rightarrow> Inl e
      | Inr leds \<Rightarrow> if leds = [] then Inl GPIOPinMissing else Inr leds)"

text \<open>
  The pin lists that \<open>LEDBoard\<close> takes (\<open>LEDBoard_accepts\<close> below shows that these are
  exactly the ones): at least one pin, no pin twice, every pin known to the factory
  and not held by another device.
\<close>

definition pins_accepted :: "pin_factory \<Rightarrow> int list \<Rightarrow> bool" where
  "pins_accepted pf pins \<longleftrightarrow>
     pins \<noteq> [] \<and> distinct pins \<and>
     (\<forall>p\<in>set pins. valid_pin pf p \<and> p \<notin> set (reserved_pins pf))"

text \<open>
  \<open>RelayController.__init__\<close>: store the pins and their number, build the board, then
  \<open>open_all\<close>. An exception of \<open>LEDBoard\<close> ends the construction.
\<close>

definition RelayController_init :: "pin_factory \<Rightarrow> int list \<Rightarrow> error + relay_controller" where
  "RelayController_init pf pins =
     (case LEDBoard pf pins of
        Inl e \<Rightarrow> Inl e
      | Inr leds \<Rightarrow>
          Inr (open_all \<lparr>relay_pins = pins, num_relays = length pins, board = leds\<rparr>))"

subsection \<open>\<open>CapRelay\<close>\<close>

text \<open>The \<open>if\<close>/\<open>elif\<close> chain at the head of \<open>set_state\<close> that picks the vector.\<close>

definition select_config :: "cap_relay \<Rightarrow> string \<Rightarrow> error + int list" where
  "select_config s state_name =
     (if lower state_name = ''charge'' then Inr (chg_config s)
      else if lower state_name = ''dump'' then Inr (dmp_config s)
      else if lower state_name = ''null'' then Inr (null_state s)
      else Inl (InvalidState state_name))"

text \<open>
  The loop \<open>for relay_num, should_be_closed in enumerate(config)\<close>, over the enumerated
  pairs that are still to come. The first exception ends it.
\<close>

fun apply_config :: "(nat \<times> int) list \<Rightarrow> cap_relay \<Rightarrow> (error + unit) \<times> cap_relay" where
  "apply_config [] s = (Inr (), s)"
| "apply_config ((relay_num, should_be_closed) # rest) s =
     (if should_be_closed = 1 then
        (case close s (int relay_num) of
           (Inl e, s') \<Rightarrow> (Inl e, s')
         | (Inr _, s') \<Rightarrow> apply_config rest s')
      else if should_be_closed = 0 then
        (case open_relay s (int relay_num) of
           (Inl e, s') \<Rightarrow> (Inl e, s')
         | (Inr _, s') \<Rightarrow> apply_config rest s')
      else (Inl (InvalidRelayState should_be_closed relay_num), s))"

text \<open>
  \<open>set_state\<close> has no \<open>return\<close> statement: a call that does not raise returns Python's
  \<open>None\<close>, which is \<open>None\<close> here. The result type leaves room for a dictionary.
\<close>

definition set_state ::
  "cap_relay \<Rightarrow> string \<Rightarrow> (error + state_info option) \<times> cap_relay" where
  "set_state s state_name =
     (case select_config s state_name of
        Inl e \<Rightarrow> (Inl e, s)
      | Inr config \<Rightarrow>
          (case apply_config (List.enumerate 0 config) s of
             (Inl e, s') \<Rightarrow> (Inl e, s')
           | (Inr _, s') \<Rightarrow> (Inr None, s'\<lparr>current_state := lower state_name\<rparr>)))"

text \<open>
  \<open>CapRelay.__init__\<close>: the base constructor first (its exception comes before any check
  of the vectors), then the two length checks, the fields, and a first
  \<open>set_state("null")\<close>.
\<close>

definition CapRelay_init ::
  "pin_factory \<Rightarrow> int list \<Rightarrow> int list \<Rightarrow> int list \<Rightarrow> error + cap_relay" where
  "CapRelay_init pf pins chg dmp =
     (case RelayController_init pf pins of
        Inl e \<Rightarrow> Inl e
      | Inr base \<Rightarrow>
          if length chg \<noteq> length dmp then Inl ConfigLengthMismatch
          else if length pins \<noteq> length chg then Inl (ConfigPinCount (length chg))
          else
            (case set_state
                    \<lparr>relay_pins = relay_pins base, num_relays = num_relays base,
                     board = board base, chg_config = chg, dmp_config = dmp,
                     current_state = ''null'',
                     null_state = replicate (length pins) 0\<rparr> ''null'' of
               (Inl e, s) \<Rightarrow> Inl e
             | (Inr _, s) \<Rightarrow> Inr s))"

text \<open>
  \<open>get_state_info\<close> calls \<open>self.get_state_config()\<close>. Neither \<open>CapRelay\<close> nor
  \<open>RelayController\<close> defines a method or attribute of that name, so the lookup raises
  \<open>AttributeError\<close>.
\<close>

definition get_state_config :: "cap_relay \<Rightarrow> error + int list" where
  "get_state_config s = Inl (AttributeError ''get_state_config'')"

text \<open>The list comprehension \<open>[1 if self.get_state(i) else 0 for i in range(...)]\<close>.\<close>

fun relay_states :: "cap_relay \<Rightarrow> nat list \<Rightarrow> error + int list" where
  "relay_states s [] = Inr []"
| "relay_states s (i # is) =
     (case get_state s (int i) of
        Inl e \<Rightarrow> Inl e
      | Inr b \<Rightarrow>
          (case relay_states s is of
             Inl e \<Rightarrow> Inl e
           | Inr bs \<Rightarrow> Inr ((if b then 1 else 0) # bs)))"

text \<open>The dictionary display evaluates its values from top to bottom.\<close>

definition get_state_info :: "cap_relay \<Rightarrow> error + state_info" where
  "get_state_info s =
     (case get_state_config s of
        Inl e \<Rightarrow> Inl e
      | Inr config \<Rightarrow>
          (case relay_states s [0..<num_relays s] of
             Inl e \<Rightarrow> Inl e
           | Inr states \<Rightarrow>
               Inr \<lparr>info_current_state = current_state s,
                    info_configuration = config,
                    info_relay_states = states,
                    info_pins = relay_pins s\<rparr>))"

subsection \<open>Devices that fail\<close>

text \<open>
  The methods above are the module on a board whose LED devices all work. A gpiozero
  call can also raise: \<open>on()\<close>, \<open>off()\<close> and \<open>is_lit\<close> of an LED whose device was closed, or
  whose pin the factory can no longer drive, end in an exception and change nothing. The
  module catches none of it. The definitions below are the same methods, line for line, with
  that exception written in: \<open>broken j\<close> says that the device of LED \<open>j\<close> cannot be driven
  at the time of the call. With no broken device they are the methods above
  (\<open>set_state_hw_working\<close> below).
\<close>

definition close_hw ::
  "(nat \<Rightarrow> bool) \<Rightarrow> 'a relay_controller_scheme \<Rightarrow> int \<Rightarrow>
   (error + unit) \<times> 'a relay_controller_scheme" where
  "close_hw broken s relay_num =
     (case validate_relay_number s relay_num of
        Inl e \<Rightarrow> (Inl e, s)
      | Inr _ \<Rightarrow>
          (case board_index (board s) relay_num of
             Inl e \<Rightarrow> (Inl e, s)
           | Inr j \<Rightarrow>
               if broken j then (Inl (HardwareError j), s)
               else (Inr (), s\<lparr>board := (board s)[j := False]\<rparr>)))"

definition open_relay_hw ::
  "(nat \<Rightarrow> bool) \<Rightarrow> 'a relay_controller_scheme \<Rightarrow> int \<Rightarrow>
   (error + unit) \<times> 'a relay_controller_scheme" where
  "open_relay_hw broken s relay_num =
     (case validate_relay_number s relay_num of
        Inl e \<Rightarrow> (Inl e, s)
      | Inr _ \<Rightarrow>
          (case board_index (board s) relay_num of
             Inl e \<Rightarrow> (Inl e, s)
           | Inr j \<Rightarrow>
               if broken j then (Inl (HardwareError j), s)
               else (Inr (), s\<lparr>board := (board s)[j := True]\<rparr>)))"

definition get_state_hw ::
  "(nat \<Rightarrow> bool) \<Rightarrow> 'a relay_controller_scheme \<Rightarrow> int \<Rightarrow> error + bool" where
  "get_state_hw broken s relay_num =
     (case validate_relay_number s relay_num of
        Inl e \<Rightarrow> Inl e
      | Inr _ \<Rightarrow>
          (case board_index (board s) relay_num of
             Inl e \<Rightarrow> Inl e
           | Inr j \<Rightarrow> if broken j then Inl (HardwareError j) else Inr (\<not> board s ! j)))"

fun apply_config_hw ::
  "(nat \<Rightarrow> bool) \<Rightarrow> (nat \<times> int) list \<Rightarrow> cap_relay \<Rightarrow> (error + unit) \<times> cap_relay" where
  "apply_config_hw broken [] s = (Inr (), s)"
| "apply_config_hw broken ((relay_num, should_be_closed) # rest) s =
     (if should_be_closed = 1 then
        (case close_hw broken s (int relay_num) of
           (Inl e, s') \<Rightarrow> (Inl e, s')
         | (Inr _, s') \<Rightarrow> apply_config_hw broken rest s')
      else if should_be_closed = 0 then
        (case open_relay_hw broken s (int relay_num) of
           (Inl e, s') \<Rightarrow> (Inl e, s')
         | (Inr _, s') \<Rightarrow> apply_config_hw broken rest s')
      else (Inl (InvalidRelayState should_be_closed relay_num), s))"

definition set_state_hw ::
  "(nat \<Rightarrow> bool) \<Rightarrow> cap_relay \<Rightarrow> string \<Rightarrow> (error + state_info option) \<times> cap_relay" where
  "set_state_hw broken s state_name =
     (case select_config s state_name of
        Inl e \<Rightarrow> (Inl e, s)
      | Inr config \<Rightarrow>
          (case apply_config_hw broken (List.enumerate 0 config) s of
             (Inl e, s') \<Rightarrow> (Inl e, s')
           | (Inr _, s') \<Rightarrow> (Inr None, s'\<lparr>current_state := lower state_name\<rparr>)))"

subsection \<open>The object built by \<open>test.py\<close>\<close>

text \<open>
  A pin factory for the examples: the GPIOs 0 to 27 of the 40-pin header, none of them
  held by another device.
\<close>

definition header_pins :: pin_factory where
  "header_pins = \<lparr>valid_pin = (\<lambda>p. 0 \<le> p \<and> p \<le> 27), reserved_pins = []\<rparr>"

text \<open>
  \<open>test.py\<close> constructs \<open>CapRelay([22, 23, 24, 25], [1, 1, 0, 0], [0, 0, 1, 1])\<close>. This is
  the object right after construction (see \<open>test_relay_init\<close> below).
\<close>

definition test_relay :: cap_relay where
  "test_relay =
     \<lparr>relay_pins = [22, 23, 24, 25], num_relays = 4, board = [True, True, True, True],
      chg_config = [1, 1, 0, 0], dmp_config = [0, 0, 1, 1], current_state = ''null'',
      null_state = [0, 0, 0, 0]\<rparr>"

text \<open>
  The same pins with a charge vector that holds a 2 at position 2: the object built by
  \<open>CapRelay([22, 23, 24, 25], [1, 0, 2, 1], [0, 0, 1, 1])\<close> (see \<open>faulty_relay_init\<close>).
\<close>

definition faulty_relay :: cap_relay where
  "faulty_relay =
     \<lparr>relay_pins = [22, 23, 24, 25], num_relays = 4, board = [True, True, True, True],
      chg_config = [1, 0, 2, 1], dmp_config = [0, 0, 1, 1], current_state = ''null'',
      null_state = [0, 0, 0, 0]\<rparr>"

text \<open>The device of LED 2, and only that one, cannot be driven.\<close>

definition relay2_broken :: "nat \<Rightarrow> bool" where
  "relay2_broken j \<longleftrightarrow> j = 2"

section \<open>Supporting lemmas\<close>

subsection \<open>State names\<close>

lemma lower_charge: "lower ''charge'' = ''charge''"
  by code_simp


lemma lower_null: "lower ''null'' = ''null''"
  by code_simp


lemma select_config_charge: "select_config s ''charge'' = Inr (chg_config s)"
  by (simp add: select_config_def lower_charge)


lemma select_config_null: "select_config s ''null'' = Inr (null_state s)"
  by (simp add: select_config_def lower_null)

subsection \<open>Single relays\<close>

lemma close_in_range:
  "relay_num < num_relays s \<Longrightarrow> relay_num < length (board s) \<Longrightarrow>
   close s (int relay_num) = (Inr (), s\<lparr>board := (board s)[relay_num := False]\<rparr>)"
  by (simp add: close_def validate_relay_number_def board_index_def)

lemma open_in_range:
  "relay_num < num_relays s \<Longrightarrow> relay_num < length (board s) \<Longrightarrow>
   open_relay s (int relay_num) = (Inr (), s\<lparr>board := (board s)[relay_num := True]\<rparr>)"
  by (simp add: open_relay_def validate_relay_number_def board_index_def)

lemma get_state_in_range:
  "relay_num < num_relays s \<Longrightarrow> relay_num < length (board s) \<Longrightarrow>
   get_state s (int relay_num) = Inr (\<not> board s ! relay_num)"
  by (simp add: get_state_def validate_relay_number_def board_index_def)

lemma get_state_current_state:
  "get_state (s\<lparr>current_state := x\<rparr>) relay_num = get_state s relay_num"
  by (simp add: get_state_def validate_relay_number_def split: sum.splits)

lemma close_out_of_range:
  "num_relays s \<le> relay_num \<Longrightarrow>
   close s (int relay_num) = (Inl (RelayNumberRange (int (num_relays s) - 1)), s)"
  by (simp add: close_def validate_relay_number_def)

lemma open_out_of_range:
  "num_relays s \<le> relay_num \<Longrightarrow>
   open_relay s (int relay_num) = (Inl (RelayNumberRange (int (num_relays s) - 1)), s)"
  by (simp add: open_relay_def validate_relay_number_def)

subsection \<open>The loop of \<open>set_state\<close>\<close>

lemma take_Suc_update:
  "n < length b \<Longrightarrow> take (Suc n) (b[n := x]) = take n b @ [x]"
  by (simp add: take_Suc_conv_app_nth)

lemma apply_config_ok:
  "\<forall>v\<in>set V. v = 0 \<or> v = 1 \<Longrightarrow> n + length V \<le> num_relays s \<Longrightarrow>
   num_relays s \<le> length (board s) \<Longrightarrow>
   apply_config (List.enumerate n V) s =
     (Inr (), s\<lparr>board := take n (board s) @ map (\<lambda>v. v = 0) V @ drop (n + length V) (board s)\<rparr>)"
proof (induction V arbitrary: n s)
  case Nil
  then show ?case by simp
next
  case (Cons v V)
  have n: "n < num_relays s" "n < length (board s)" using Cons.prems by simp_all
  let ?s = "s\<lparr>board := (board s)[n := (v = 0)]\<rparr>"
  have step: "apply_config (List.enumerate n (v # V)) s = apply_config (List.enumerate (Suc n) V) ?s"
    using Cons.prems n by (auto simp: close_in_range open_in_range)
  have "apply_config (List.enumerate (Suc n) V) ?s =
     (Inr (), ?s\<lparr>board := take (Suc n) (board ?s) @ map (\<lambda>v. v = 0) V @ drop (Suc n + length V) (board ?s)\<rparr>)"
    using Cons.prems by (intro Cons.IH) simp_all
  with step n show ?case by (simp add: take_Suc_update)
qed

lemma apply_config_append:
  "apply_config (xs @ ys) s =
     (case apply_config xs s of (Inl e, s') \<Rightarrow> (Inl e, s') | (Inr u, s') \<Rightarrow> apply_config ys s')"
  by (induction xs s rule: apply_config.induct) (auto split: prod.splits sum.splits)

lemma apply_config_head_fails:
  "\<not> ((v = 0 \<or> v = 1) \<and> m < num_relays s) \<Longrightarrow>
   apply_config ((m, v) # rest) s =
     (Inl (if v = 0 \<or> v = 1 then RelayNumberRange (int (num_relays s) - 1)
           else InvalidRelayState v m), s)"
  by (auto simp: close_out_of_range open_out_of_range)

lemma apply_config_fail:
  assumes k: "k < length V"
    and below: "\<forall>j<k. V ! j = 0 \<or> V ! j = 1"
    and fits: "n + k \<le> num_relays s"
    and len: "num_relays s \<le> length (board s)"
    and fails: "\<not> ((V ! k = 0 \<or> V ! k = 1) \<and> n + k < num_relays s)"
  shows "apply_config (List.enumerate n V) s =
     (Inl (if V ! k = 0 \<or> V ! k = 1 then RelayNumberRange (int (num_relays s) - 1)
           else InvalidRelayState (V ! k) (n + k)),
      s\<lparr>board := take n (board s) @ map (\<lambda>v. v = 0) (take k V) @ drop (n + k) (board s)\<rparr>)"
proof -
  let ?s = "s\<lparr>board := take n (board s) @ map (\<lambda>v. v = 0) (take k V) @ drop (n + k) (board s)\<rparr>"
  have split: "List.enumerate n V =
      List.enumerate n (take k V) @ (n + k, V ! k) # List.enumerate (Suc (n + k)) (drop (Suc k) V)"
    using k by (subst id_take_nth_drop [OF k]) (simp add: enumerate_append_eq min_def)
  have "\<forall>v\<in>set (take k V). v = 0 \<or> v = 1"
  proof
    fix v
    assume "v \<in> set (take k V)"
    then obtain j where "j < length (take k V)" and "take k V ! j = v"
      by (auto simp: in_set_conv_nth)
    then have "j < k" and "V ! j = v"
      using k by simp_all
    with below show "v = 0 \<or> v = 1"
      by blast
  qed
  then have front: "apply_config (List.enumerate n (take k V)) s = (Inr (), ?s)"
    using apply_config_ok [of "take k V" n s] k fits len by (simp add: min_def)
  have "apply_config ((n + k, V ! k) # List.enumerate (Suc (n + k)) (drop (Suc k) V)) ?s =
     (Inl (if V ! k = 0 \<or> V ! k = 1 then RelayNumberRange (int (num_relays ?s) - 1)
           else InvalidRelayState (V ! k) (n + k)), ?s)"
    using fails by (intro apply_config_head_fails) simp
  with front show ?thesis
    by (simp only: split apply_config_append) simp
qed

subsection \<open>\<open>set_state\<close> as a whole\<close>

lemma set_state_ok:
  assumes "select_config s name = Inr V"
    and "\<forall>v\<in>set V. v = 0 \<or> v = 1"
    and "length V \<le> num_relays s"
    and "num_relays s \<le> length (board s)"
  shows "set_state s name =
     (Inr None, s\<lparr>board := map (\<lambda>v. v = 0) V @ drop (length V) (board s),
                  current_state := lower name\<rparr>)"
  using assms apply_config_ok [of V 0 s] by (simp add: set_state_def)

lemma set_state_fail:
  assumes "select_config s name = Inr V"
    and "k < length V"
    and "\<forall>j<k. V ! j = 0 \<or> V ! j = 1"
    and "k \<le> num_relays s"
    and "num_relays s \<le> length (board s)"
    and "\<not> ((V ! k = 0 \<or> V ! k = 1) \<and> k < num_relays s)"
  shows "set_state s name =
     (Inl (if V ! k = 0 \<or> V ! k = 1 then RelayNumberRange (int (num_relays s) - 1)
           else InvalidRelayState (V ! k) k),
      s\<lparr>board := map (\<lambda>v. v = 0) (take k V) @ drop k (board s)\<rparr>)"
  using assms apply_config_fail [of k V 0 s] by (simp add: set_state_def)

lemma LEDBoard_leds_ok:
  "distinct pins \<Longrightarrow> \<forall>p\<in>set pins. valid_pin pf p \<and> p \<notin> set held \<Longrightarrow>
   LEDBoard_leds pf held pins = Inr (replicate (length pins) False)"
proof (induction pins arbitrary: held)
  case Nil
  then show ?case by simp
next
  case (Cons pin pins)
  have "LEDBoard_leds pf (pin # held) pins = Inr (replicate (length pins) False)"
    using Cons.prems by (intro Cons.IH) auto
  with Cons.prems show ?case by simp
qed

lemma LEDBoard_leds_Inr:
  "LEDBoard_leds pf held pins = Inr leds \<Longrightarrow>
   distinct pins \<and> (\<forall>p\<in>set pins. valid_pin pf p \<and> p \<notin> set held) \<and>
   leds = replicate (length pins) False"
proof (induction pins arbitrary: held leds)
  case Nil
  then show ?case by simp
next
  case (Cons pin pins)
  from Cons.prems obtain leds' where
    ok: "valid_pin pf pin" "pin \<notin> set held"
    and rest: "LEDBoard_leds pf (pin # held) pins = Inr leds'"
    and leds: "leds = False # leds'"
    by (auto split: if_splits sum.splits)
  from Cons.IH [OF rest] ok leds show ?case by auto
qed

lemma LEDBoard_accepts:
  "LEDBoard pf pins = Inr leds \<longleftrightarrow>
   pins_accepted pf pins \<and> leds = replicate (length pins) False"
proof
  assume "LEDBoard pf pins = Inr leds"
  then have run: "LEDBoard_leds pf (reserved_pins pf) pins = Inr leds" and "leds \<noteq> []"
    by (auto simp: LEDBoard_def split: sum.splits if_splits)
  with LEDBoard_leds_Inr [OF run]
  show "pins_accepted pf pins \<and> leds = replicate (length pins) False"
    by (auto simp: pins_accepted_def)
next
  assume a: "pins_accepted pf pins \<and> leds = replicate (length pins) False"
  then have "LEDBoard_leds pf (reserved_pins pf) pins = Inr leds"
    by (simp add: pins_accepted_def LEDBoard_leds_ok)
  with a show "LEDBoard pf pins = Inr leds"
    by (simp add: LEDBoard_def pins_accepted_def)
qed

lemma LEDBoard_refuses:
  "\<not> pins_accepted pf pins \<Longrightarrow> \<exists>e. LEDBoard pf pins = Inl e"
  using LEDBoard_accepts [of pf pins] by (cases "LEDBoard pf pins") auto

lemma LEDBoard_empty: "LEDBoard pf [] = Inl GPIOPinMissing"
  by (simp add: LEDBoard_def)

lemma RelayController_init_ok:
  assumes "pins_accepted pf pins"
  shows "RelayController_init pf pins =
     Inr \<lparr>relay_pins = pins, num_relays = length pins, board = replicate (length pins) True\<rparr>"
proof -
  from assms have "LEDBoard pf pins = Inr (replicate (length pins) False)"
    by (simp add: LEDBoard_accepts)
  then show ?thesis
    by (simp add: RelayController_init_def open_all_def map_replicate_const)
qed

lemma CapRelay_init_refused:
  assumes "LEDBoard pf pins = Inl e"
  shows "CapRelay_init pf pins chg dmp = Inl e"
  using assms by (simp add: CapRelay_init_def RelayController_init_def)

lemma CapRelay_init_lengths:
  assumes "pins_accepted pf pins"
  shows "CapRelay_init pf pins chg dmp =
     (if length chg \<noteq> length dmp then Inl ConfigLengthMismatch
      else if length pins \<noteq> length chg then Inl (ConfigPinCount (length chg))
      else Inr \<lparr>relay_pins = pins, num_relays = length pins,
                board = replicate (length pins) True, chg_config = chg, dmp_config = dmp,
                current_state = ''null'', null_state = replicate (length pins) 0\<rparr>)"
proof -
  let ?s = "\<lparr>relay_pins = pins, num_relays = length pins,
          board = replicate (length pins) True, chg_config = chg, dmp_config = dmp,
          current_state = ''null'', null_state = replicate (length pins) 0\<rparr>"
  have st: "set_state ?s ''null'' = (Inr None, ?s)"
    using set_state_ok [of ?s "''null''" "replicate (length pins) 0"]
    by (simp add: select_config_null lower_null map_replicate_const)
  have eq: "CapRelay_init pf pins chg dmp =
     (if length chg \<noteq> length dmp then Inl ConfigLengthMismatch
      else if length pins \<noteq> length chg then Inl (ConfigPinCount (length chg))
      else (case set_state ?s ''null'' of (Inl e, s) \<Rightarrow> Inl e | (Inr u, s) \<Rightarrow> Inr s))"
    by (simp add: CapRelay_init_def RelayController_init_ok [OF assms])
  show ?thesis
    unfolding eq st by simp
qed

lemma CapRelay_init_ok:
  assumes "pins_accepted pf pins" and "length chg = length pins" and "length dmp = length pins"
  shows "CapRelay_init pf pins chg dmp =
     Inr \<lparr>relay_pins = pins, num_relays = length pins,
          board = replicate (length pins) True, chg_config = chg, dmp_config = dmp,
          current_state = ''null'', null_state = replicate (length pins) 0\<rparr>"
  using assms by (simp add: CapRelay_init_lengths)

lemma header_pins_accepted: "pins_accepted header_pins [22, 23, 24, 25]"
  by (simp add: pins_accepted_def header_pins_def)

lemma header_pins_accepted_22: "pins_accepted header_pins [22]"
  by (simp add: pins_accepted_def header_pins_def)

lemma test_relay_init:
  "CapRelay_init header_pins [22, 23, 24, 25] [1, 1, 0, 0] [0, 0, 1, 1] = Inr test_relay"
  by (simp add: CapRelay_init_ok header_pins_accepted test_relay_def)

subsection \<open>What the loop leaves alone\<close>

lemma close_cases:
  assumes "close s (int m) = (r, s')"
  shows "(r = Inr () \<and> m < num_relays s \<and> m < length (board s) \<and>
          s' = s\<lparr>board := (board s)[m := False]\<rparr>) \<or> ((\<exists>e. r = Inl e) \<and> s' = s)"
  using assms
  by (auto simp: close_def validate_relay_number_def board_index_def split: if_splits)

lemma open_cases:
  assumes "open_relay s (int m) = (r, s')"
  shows "(r = Inr () \<and> m < num_relays s \<and> m < length (board s) \<and>
          s' = s\<lparr>board := (board s)[m := True]\<rparr>) \<or> ((\<exists>e. r = Inl e) \<and> s' = s)"
  using assms
  by (auto simp: open_relay_def validate_relay_number_def board_index_def split: if_splits)

lemma apply_config_frame:
  "apply_config xs s = (r, s') \<Longrightarrow>
   num_relays s' = num_relays s \<and> length (board s') = length (board s) \<and>
   current_state s' = current_state s \<and>
   (\<forall>i. i \<notin> fst ` set xs \<longrightarrow> board s' ! i = board s ! i)"
proof (induction xs s arbitrary: r s' rule: apply_config.induct)
  case (1 s)
  then show ?case by simp
next
  case (2 relay_num should_be_closed rest s)
  show ?case
  proof (cases "should_be_closed = 1")
    case True
    obtain r1 s1 where c: "close s (int relay_num) = (r1, s1)"
      by (cases "close s (int relay_num)")
    from close_cases [OF c] show ?thesis
    proof
      assume ok: "r1 = Inr () \<and> relay_num < num_relays s \<and> relay_num < length (board s) \<and>
          s1 = s\<lparr>board := (board s)[relay_num := False]\<rparr>"
      with c True "2.prems" have "apply_config rest s1 = (r, s')" by simp
      from "2.IH"(1) [OF True _ _ this] c ok
      show ?thesis by auto
    next
      assume "(\<exists>e. r1 = Inl e) \<and> s1 = s"
      with c True "2.prems" show ?thesis by auto
    qed
  next
    case False
    show ?thesis
    proof (cases "should_be_closed = 0")
      case z: True
      obtain r1 s1 where c: "open_relay s (int relay_num) = (r1, s1)"
        by (cases "open_relay s (int relay_num)")
      from open_cases [OF c] show ?thesis
      proof
        assume ok: "r1 = Inr () \<and> relay_num < num_relays s \<and> relay_num < length (board s) \<and>
            s1 = s\<lparr>board := (board s)[relay_num := True]\<rparr>"
        with c z "2.prems" have "apply_config rest s1 = (r, s')" by simp
        from "2.IH"(2) [OF False z _ _ this] c ok
        show ?thesis by auto
      next
        assume "(\<exists>e. r1 = Inl e) \<and> s1 = s"
        with c z "2.prems" show ?thesis by auto
      qed
    next
      case nz: False
      with False "2.prems" show ?thesis by simp
    qed
  qed
qed

lemma apply_config_reads:
  "apply_config (List.enumerate n V) s = (Inr u, s') \<Longrightarrow> j < length V \<Longrightarrow>
   get_state s' (int (n + j)) = Inr (V ! j = 1)"
proof (induction V arbitrary: n s j)
  case Nil
  then show ?case by simp
next
  case (Cons v V)
  let ?s1 = "s\<lparr>board := (board s)[n := (v = 0)]\<rparr>"
  have v: "v = 0 \<or> v = 1"
    using Cons.prems(1) by (auto split: if_splits)
  have ok: "n < num_relays s \<and> n < length (board s) \<and>
            apply_config (List.enumerate (Suc n) V) ?s1 = (Inr u, s')"
  proof (cases "v = 1")
    case True
    obtain r1 s1 where c: "close s (int n) = (r1, s1)"
      by (cases "close s (int n)")
    with close_cases [OF c] Cons.prems(1) True show ?thesis by auto
  next
    case False
    with v have z: "v = 0" by simp
    obtain r1 s1 where c: "open_relay s (int n) = (r1, s1)"
      by (cases "open_relay s (int n)")
    with open_cases [OF c] Cons.prems(1) z show ?thesis by auto
  qed
  show ?case
  proof (cases j)
    case 0
    have "n \<notin> fst ` set (List.enumerate (Suc n) V)"
      by (auto simp: in_set_enumerate_eq)
    with apply_config_frame [of "List.enumerate (Suc n) V" ?s1 "Inr u" s'] ok
    have "num_relays s' = num_relays s" and "length (board s') = length (board s)"
      and "board s' ! n = (v = 0)"
      by auto
    with ok v 0 show ?thesis
      by (auto simp: get_state_in_range)
  next
    case (Suc j')
    with Cons.prems(2) have "j' < length V" by simp
    from Cons.IH [OF _ this, of "Suc n" ?s1] ok Suc show ?thesis by simp
  qed
qed

lemma select_config_length:
  assumes "select_config s name = Inr V"
    and "length (chg_config s) = n" and "length (dmp_config s) = n"
    and "length (null_state s) = n"
  shows "length V = n"
  using assms by (auto simp: select_config_def split: if_splits)

lemma lower_bogus: "lower ''Bogus'' = ''bogus''"
  by code_simp

subsection \<open>Devices that fail\<close>

lemma close_hw_working: "close_hw (\<lambda>j. False) s relay_num = close s relay_num"
  by (simp add: close_hw_def close_def split: sum.splits)

lemma open_relay_hw_working: "open_relay_hw (\<lambda>j. False) s relay_num = open_relay s relay_num"
  by (simp add: open_relay_hw_def open_relay_def split: sum.splits)

lemma get_state_hw_working: "get_state_hw (\<lambda>j. False) s relay_num = get_state s relay_num"
  by (simp add: get_state_hw_def get_state_def split: sum.splits)

lemma apply_config_hw_working: "apply_config_hw (\<lambda>j. False) xs s = apply_config xs s"
  by (induction xs s rule: apply_config.induct)
    (auto simp: close_hw_working open_relay_hw_working split: prod.splits sum.splits)

lemma set_state_hw_working: "set_state_hw (\<lambda>j. False) s name = set_state s name"
  by (simp add: set_state_hw_def set_state_def apply_config_hw_working split: sum.splits)

lemma close_hw_in_range:
  "relay_num < num_relays s \<Longrightarrow> relay_num < length (board s) \<Longrightarrow> \<not> broken relay_num \<Longrightarrow>
   close_hw broken s (int relay_num) = (Inr (), s\<lparr>board := (board s)[relay_num := False]\<rparr>)"
  by (simp add: close_hw_def validate_relay_number_def board_index_def)

lemma open_hw_in_range:
  "relay_num < num_relays s \<Longrightarrow> relay_num < length (board s) \<Longrightarrow> \<not> broken relay_num \<Longrightarrow>
   open_relay_hw broken s (int relay_num) = (Inr (), s\<lparr>board := (board s)[relay_num := True]\<rparr>)"
  by (simp add: open_relay_hw_def validate_relay_number_def board_index_def)

lemma get_state_hw_in_range:
  "relay_num < num_relays s \<Longrightarrow> relay_num < length (board s) \<Longrightarrow> \<not> broken relay_num \<Longrightarrow>
   get_state_hw broken s (int relay_num) = Inr (\<not> board s ! relay_num)"
  by (simp add: get_state_hw_def validate_relay_number_def board_index_def)

lemma close_hw_fails:
  "num_relays s \<le> length (board s) \<Longrightarrow> \<not> (m < num_relays s \<and> \<not> broken m) \<Longrightarrow>
   close_hw broken s (int m) =
     (Inl (if m < num_relays s then HardwareError m
           else RelayNumberRange (int (num_relays s) - 1)), s)"
  by (auto simp: close_hw_def validate_relay_number_def board_index_def)

lemma open_hw_fails:
  "num_relays s \<le> length (board s) \<Longrightarrow> \<not> (m < num_relays s \<and> \<not> broken m) \<Longrightarrow>
   open_relay_hw broken s (int m) =
     (Inl (if m < num_relays s then HardwareError m
           else RelayNumberRange (int (num_relays s) - 1)), s)"
  by (auto simp: open_relay_hw_def validate_relay_number_def board_index_def)

lemma apply_config_hw_ok:
  "\<forall>v\<in>set V. v = 0 \<or> v = 1 \<Longrightarrow> n + length V \<le> num_relays s \<Longrightarrow>
   num_relays s \<le> length (board s) \<Longrightarrow> \<forall>j. n \<le> j \<and> j < n + length V \<longrightarrow> \<not> broken j \<Longrightarrow>
   apply_config_hw broken (List.enumerate n V) s =
     (Inr (), s\<lparr>board := take n (board s) @ map (\<lambda>v. v = 0) V @ drop (n + length V) (board s)\<rparr>)"
proof (induction V arbitrary: n s)
  case Nil
  then show ?case by simp
next
  case (Cons v V)
  have n: "n < num_relays s" "n < length (board s)" "\<not> broken n"
    using Cons.prems by simp_all
  let ?s = "s\<lparr>board := (board s)[n := (v = 0)]\<rparr>"
  have step: "apply_config_hw broken (List.enumerate n (v # V)) s =
      apply_config_hw broken (List.enumerate (Suc n) V) ?s"
    using Cons.prems(1) n by (auto simp: close_hw_in_range open_hw_in_range)
  have "apply_config_hw broken (List.enumerate (Suc n) V) ?s =
     (Inr (), ?s\<lparr>board := take (Suc n) (board ?s) @ map (\<lambda>v. v = 0) V @
                           drop (Suc n + length V) (board ?s)\<rparr>)"
    using Cons.prems by (intro Cons.IH) simp_all
  with step n show ?case by (simp add: take_Suc_update)
qed

lemma apply_config_hw_append:
  "apply_config_hw broken (xs @ ys) s =
     (case apply_config_hw broken xs s of
        (Inl e, s') \<Rightarrow> (Inl e, s')
      | (Inr u, s') \<Rightarrow> apply_config_hw broken ys s')"
  by (induction broken xs s rule: apply_config_hw.induct) (auto split: prod.splits sum.splits)

lemma apply_config_hw_head_fails:
  "num_relays s \<le> length (board s) \<Longrightarrow>
   \<not> ((v = 0 \<or> v = 1) \<and> m < num_relays s \<and> \<not> broken m) \<Longrightarrow>
   apply_config_hw broken ((m, v) # rest) s =
     (Inl (if v \<noteq> 0 \<and> v \<noteq> 1 then InvalidRelayState v m
           else if m < num_relays s then HardwareError m
           else RelayNumberRange (int (num_relays s) - 1)), s)"
  by (auto simp: close_hw_fails open_hw_fails)

lemma apply_config_hw_fail:
  assumes k: "k < length V"
    and below: "\<forall>j<k. (V ! j = 0 \<or> V ! j = 1) \<and> \<not> broken (n + j)"
    and fits: "n + k \<le> num_relays s"
    and len: "num_relays s \<le> length (board s)"
    and fails: "\<not> ((V ! k = 0 \<or> V ! k = 1) \<and> n + k < num_relays s \<and> \<not> broken (n + k))"
  shows "apply_config_hw broken (List.enumerate n V) s =
     (Inl (if V ! k \<noteq> 0 \<and> V ! k \<noteq> 1 then InvalidRelayState (V ! k) (n + k)
           else if n + k < num_relays s then HardwareError (n + k)
           else RelayNumberRange (int (num_relays s) - 1)),
      s\<lparr>board := take n (board s) @ map (\<lambda>v. v = 0) (take k V) @ drop (n + k) (board s)\<rparr>)"
proof -
  let ?s = "s\<lparr>board := take n (board s) @ map (\<lambda>v. v = 0) (take k V) @ drop (n + k) (board s)\<rparr>"
  have split: "List.enumerate n V =
      List.enumerate n (take k V) @ (n + k, V ! k) # List.enumerate (Suc (n + k)) (drop (Suc k) V)"
    using k by (subst id_take_nth_drop [OF k]) (simp add: enumerate_append_eq min_def)
  have entries: "\<forall>v\<in>set (take k V). v = 0 \<or> v = 1"
  proof
    fix v
    assume "v \<in> set (take k V)"
    then obtain j where "j < length (take k V)" and "take k V ! j = v"
      by (auto simp: in_set_conv_nth)
    then have "j < k" and "V ! j = v"
      using k by simp_all
    with below show "v = 0 \<or> v = 1"
      by blast
  qed
  have working: "\<forall>j. n \<le> j \<and> j < n + length (take k V) \<longrightarrow> \<not> broken j"
  proof (intro allI impI)
    fix j
    assume "n \<le> j \<and> j < n + length (take k V)"
    then have "j - n < k" and "n + (j - n) = j"
      using k by auto
    with below show "\<not> broken j"
      by metis
  qed
  have front: "apply_config_hw broken (List.enumerate n (take k V)) s = (Inr (), ?s)"
    using apply_config_hw_ok [OF entries _ len working] k fits by (simp add: min_def)
  have "apply_config_hw broken
          ((n + k, V ! k) # List.enumerate (Suc (n + k)) (drop (Suc k) V)) ?s =
     (Inl (if V ! k \<noteq> 0 \<and> V ! k \<noteq> 1 then InvalidRelayState (V ! k) (n + k)
           else if n + k < num_relays ?s then HardwareError (n + k)
           else RelayNumberRange (int (num_relays ?s) - 1)), ?s)"
    using fails len k fits by (intro apply_config_hw_head_fails) simp_all
  with front show ?thesis
    by (simp only: split apply_config_hw_append) simp
qed

lemma set_state_hw_fail:
  assumes "select_config s name = Inr V"
    and "k < length V"
    and "\<forall>j<k. (V ! j = 0 \<or> V ! j = 1) \<and> \<not> broken j"
    and "k \<le> num_relays s"
    and "num_relays s \<le> length (board s)"
    and "\<not> ((V ! k = 0 \<or> V ! k = 1) \<and> k < num_relays s \<and> \<not> broken k)"
  shows "set_state_hw broken s name =
     (Inl (if V ! k \<noteq> 0 \<and> V ! k \<noteq> 1 then InvalidRelayState (V ! k) k
           else if k < num_relays s then HardwareError k
           else RelayNumberRange (int (num_relays s) - 1)),
      s\<lparr>board := map (\<lambda>v. v = 0) (take k V) @ drop k (board s)\<rparr>)"
  using assms apply_config_hw_fail [of k V broken 0 s] by (simp add: set_state_hw_def)

subsection \<open>Construction and the class invariant\<close>

text \<open>
  \<open>num_relays\<close> and the board are set once, in the constructor, to the same length, and
  no method changes either length.
\<close>

lemma faulty_relay_init:
  "CapRelay_init header_pins [22, 23, 24, 25] [1, 0, 2, 1] [0, 0, 1, 1] = Inr faulty_relay"
  by (simp add: CapRelay_init_ok header_pins_accepted faulty_relay_def)

text \<open>
  Pin lists that are refused: a pin twice, a pin the factory does not know, and no pin
  at all, where the exception of the board comes before the check of the lengths.
\<close>

lemma repeated_pin_refused:
  "CapRelay_init header_pins [22, 22] [1, 0] [0, 1] = Inl (GPIOPinInUse 22)"
  by (simp add: CapRelay_init_refused LEDBoard_def header_pins_def)

lemma unknown_pin_refused:
  "CapRelay_init header_pins [99] [1] [0] = Inl (PinInvalidPin 99)"
  by (simp add: CapRelay_init_refused LEDBoard_def header_pins_def)

lemma board_exception_first:
  "CapRelay_init header_pins [] [1] [] = Inl GPIOPinMissing"
  by (simp add: CapRelay_init_refused LEDBoard_empty)

lemma CapRelay_init_Inr:
  assumes "CapRelay_init pf pins chg dmp = Inr s"
  shows "pins_accepted pf pins \<and> length chg = length pins \<and> length dmp = length pins"
proof -
  have acc: "pins_accepted pf pins"
  proof (rule ccontr)
    assume "\<not> pins_accepted pf pins"
    then obtain e where "LEDBoard pf pins = Inl e"
      using LEDBoard_refuses by blast
    with assms show False
      by (simp add: CapRelay_init_refused)
  qed
  with assms show ?thesis
    by (auto simp: CapRelay_init_lengths split: if_splits)
qed

lemma CapRelay_init_invariant:
  assumes "CapRelay_init pf pins chg dmp = Inr s"
  shows "num_relays s = length (board s) \<and> length (chg_config s) = num_relays s \<and>
         length (dmp_config s) = num_relays s \<and> length (null_state s) = num_relays s"
proof -
  from CapRelay_init_Inr [OF assms]
  have l: "pins_accepted pf pins" "length chg = length pins" "length dmp = length pins"
    by simp_all
  from assms show ?thesis
    unfolding CapRelay_init_ok [OF l] using l by auto
qed

lemma close_invariant:
  "close s (int m) = (r, s') \<Longrightarrow> num_relays s = length (board s) \<Longrightarrow>
   num_relays s' = length (board s')"
  by (drule close_cases) auto

lemma open_invariant:
  "open_relay s (int m) = (r, s') \<Longrightarrow> num_relays s = length (board s) \<Longrightarrow>
   num_relays s' = length (board s')"
  by (drule open_cases) auto

lemma close_all_invariant:
  "num_relays s = length (board s) \<Longrightarrow> num_relays (close_all s) = length (board (close_all s))"
  by (simp add: close_all_def)

lemma open_all_invariant:
  "num_relays s = length (board s) \<Longrightarrow> num_relays (open_all s) = length (board (open_all s))"
  by (simp add: open_all_def)

lemma set_state_invariant:
  assumes "set_state s name = (r, s')" and "num_relays s = length (board s)"
  shows "num_relays s' = length (board s')"
proof (cases "select_config s name")
  case (Inl e)
  with assms show ?thesis by (simp add: set_state_def)
next
  case (Inr V)
  obtain r1 s1 where run: "apply_config (List.enumerate 0 V) s = (r1, s1)"
    by (cases "apply_config (List.enumerate 0 V) s")
  from apply_config_frame [OF run] assms(2) have "num_relays s1 = length (board s1)"
    by simp
  with assms(1) Inr run show ?thesis
    by (auto simp: set_state_def split: sum.splits)
qed

section \<open>The claims\<close>

subsection \<open>A successful transition is read back as its vector\<close>

text \<open>
  Claim C1. Let \<open>V\<close> be the vector that the name selects, of length \<open>N = num_relays\<close> and
  with every entry 0 or 1. If \<open>set_state\<close> returns without raising, then in the object it
  leaves behind \<open>get_state(i)\<close> returns \<open>V[i] == 1\<close> for every index \<open>i\<close> below \<open>N\<close>.
\<close>
theorem set_state_readback:
  assumes "select_config s name = Inr V"
    and "length V = num_relays s"
    and "\<forall>v\<in>set V. v = 0 \<or> v = 1"
    and "set_state s name = (Inr r, s')"
    and "i < num_relays s"
  shows "get_state s' (int i) = Inr (V ! i = 1)"
proof -
  from assms(1,4) obtain u s1 where
    run: "apply_config (List.enumerate 0 V) s = (Inr u, s1)"
    and s': "s' = s1\<lparr>current_state := lower name\<rparr>"
    by (auto simp: set_state_def split: prod.splits sum.splits)
  from assms(2,5) have "i < length V" by simp
  from apply_config_reads [OF run this] s' show ?thesis
    by (simp add: get_state_current_state)
qed

theorem set_state_readback_witness:
  "select_config test_relay ''charge'' = Inr [1, 1, 0, 0] \<and>
   length [1, 1, 0, 0 :: int] = num_relays test_relay \<and>
   set_state test_relay ''charge'' =
     (Inr None, test_relay\<lparr>board := [False, False, True, True], current_state := ''charge''\<rparr>) \<and>
   (1::nat) < num_relays test_relay \<and>
   get_state (test_relay\<lparr>board := [False, False, True, True], current_state := ''charge''\<rparr>)
     (int 1) = Inr ([1, 1, 0, 0 :: int] ! 1 = 1)"
proof -
  have a: "select_config test_relay ''charge'' = Inr [1, 1, 0, 0]"
    by (simp add: select_config_charge test_relay_def)
  have b: "length [1, 1, 0, 0 :: int] = num_relays test_relay"
    by (simp add: test_relay_def)
  have c: "\<forall>v\<in>set [1, 1, 0, 0 :: int]. v = 0 \<or> v = 1"
    by simp
  have d: "set_state test_relay ''charge'' =
     (Inr None, test_relay\<lparr>board := [False, False, True, True], current_state := ''charge''\<rparr>)"
    using set_state_ok [OF a c] by (simp add: test_relay_def lower_charge)
  have e: "(1::nat) < num_relays test_relay"
    by (simp add: test_relay_def)
  from set_state_readback [OF a b c d e] a b d e show ?thesis
    by blast
qed

subsection \<open>\<open>get_state_info\<close>\<close>

text \<open>
  Claim C2. The claim is that \<open>get_state_info()\<close> succeeds on every constructed object and
  returns the state name, the configuration vector, the relay states read back and the
  pins. The method does not: on the object of \<open>test.py\<close>, right after construction, it
  raises \<open>AttributeError\<close>, because the value of the key \<open>"configuration"\<close> is
  \<open>self.get_state_config()\<close> and no such method exists.
\<close>

theorem get_state_info_raises:
  "CapRelay_init header_pins [22, 23, 24, 25] [1, 1, 0, 0] [0, 0, 1, 1] = Inr test_relay \<and>
   get_state_info test_relay = Inl (AttributeError ''get_state_config'')"
  by (simp add: test_relay_init get_state_info_def get_state_config_def)

subsection \<open>Entries outside 0 and 1\<close>

text \<open>
  Against claim C3 as stated. \<open>CapRelay([22], [2], [0])\<close> is constructed without any
  error although the charge vector holds a 2; the entry is rejected only by the later
  \<open>set_state("charge")\<close>, which raises \<open>"Invalid relay state 2 at position 0"\<close> and leaves the
  object as it was.
\<close>

theorem construction_accepts_invalid_entry:
  "CapRelay_init header_pins [22] [2] [0] =
     Inr \<lparr>relay_pins = [22], num_relays = 1, board = [True], chg_config = [2],
          dmp_config = [0], current_state = ''null'', null_state = [0]\<rparr> \<and>
   set_state \<lparr>relay_pins = [22], num_relays = 1, board = [True], chg_config = [2],
          dmp_config = [0], current_state = ''null'', null_state = [0]\<rparr> ''charge'' =
     (Inl (InvalidRelayState 2 0),
      \<lparr>relay_pins = [22], num_relays = 1, board = [True], chg_config = [2],
          dmp_config = [0], current_state = ''null'', null_state = [0]\<rparr>)"
  by (simp add: CapRelay_init_ok header_pins_accepted_22 set_state_def select_config_charge
      List.enumerate_eq_zip)

text \<open>
  Claim C3, amended. On a pin list that \<open>LEDBoard\<close> accepts, the constructor checks the
  lengths of the two vectors and nothing else. It raises when the charge and the dump
  vector differ in length, and when their length differs from the number of pins. When
  both have as many entries as there are pins, construction succeeds whatever the
  entries are. An entry outside 0 and 1 is rejected when \<open>set_state\<close> applies the vector
  that holds it: the call raises the error that names the value and the position \<open>k\<close> of
  the first such entry.
\<close>

theorem invalid_entry_deferred:
  assumes "pins_accepted pf pins"
  shows "(length chg \<noteq> length dmp \<longrightarrow>
            CapRelay_init pf pins chg dmp = Inl ConfigLengthMismatch) \<and>
         (length chg = length dmp \<and> length pins \<noteq> length chg \<longrightarrow>
            CapRelay_init pf pins chg dmp = Inl (ConfigPinCount (length chg))) \<and>
         (length chg = length pins \<and> length dmp = length pins \<longrightarrow>
            (\<exists>s. CapRelay_init pf pins chg dmp = Inr s \<and>
                 chg_config s = chg \<and> dmp_config s = dmp \<and>
                 (\<forall>name V k. select_config s name = Inr V \<longrightarrow> k < length V \<longrightarrow>
                    V ! k \<noteq> 0 \<and> V ! k \<noteq> 1 \<longrightarrow> (\<forall>j<k. V ! j = 0 \<or> V ! j = 1) \<longrightarrow>
                    fst (set_state s name) = Inl (InvalidRelayState (V ! k) k))))"
proof (intro conjI impI)
  assume "length chg \<noteq> length dmp"
  then show "CapRelay_init pf pins chg dmp = Inl ConfigLengthMismatch"
    by (simp add: CapRelay_init_lengths [OF assms])
next
  assume "length chg = length dmp \<and> length pins \<noteq> length chg"
  then show "CapRelay_init pf pins chg dmp = Inl (ConfigPinCount (length chg))"
    by (simp add: CapRelay_init_lengths [OF assms])
next
  assume l: "length chg = length pins \<and> length dmp = length pins"
  let ?s = "\<lparr>relay_pins = pins, num_relays = length pins,
          board = replicate (length pins) True, chg_config = chg, dmp_config = dmp,
          current_state = ''null'', null_state = replicate (length pins) 0\<rparr>"
  have init: "CapRelay_init pf pins chg dmp = Inr ?s"
    using assms l by (simp add: CapRelay_init_ok)
  have "fst (set_state ?s name) = Inl (InvalidRelayState (V ! k) k)"
    if sel: "select_config ?s name = Inr V" and k: "k < length V"
      and bad: "V ! k \<noteq> 0 \<and> V ! k \<noteq> 1" and below: "\<forall>j<k. V ! j = 0 \<or> V ! j = 1"
    for name V k
  proof -
    have "length V = length pins"
      using sel l by (intro select_config_length [of ?s name V]) simp_all
    with k have "k \<le> num_relays ?s" by simp
    from set_state_fail [OF sel k below this] bad show ?thesis by simp
  qed
  with init show "\<exists>s. CapRelay_init pf pins chg dmp = Inr s \<and>
                 chg_config s = chg \<and> dmp_config s = dmp \<and>
                 (\<forall>name V k. select_config s name = Inr V \<longrightarrow> k < length V \<longrightarrow>
                    V ! k \<noteq> 0 \<and> V ! k \<noteq> 1 \<longrightarrow> (\<forall>j<k. V ! j = 0 \<or> V ! j = 1) \<longrightarrow>
                    fst (set_state s name) = Inl (InvalidRelayState (V ! k) k))"
    by auto
qed

theorem invalid_entry_deferred_witness:
  "pins_accepted header_pins [22] \<and>
   CapRelay_init header_pins [22] [1, 0] [0] = Inl ConfigLengthMismatch \<and>
   CapRelay_init header_pins [22] [1, 0] [0, 1] = Inl (ConfigPinCount 2) \<and>
   (\<exists>s. CapRelay_init header_pins [22] [2] [0] = Inr s \<and>
        select_config s ''charge'' = Inr [2] \<and>
        fst (set_state s ''charge'') = Inl (InvalidRelayState 2 0))"
proof -
  note acc = header_pins_accepted_22
  from invalid_entry_deferred [OF acc, of "[1, 0]" "[0]"]
  have a: "CapRelay_init header_pins [22] [1, 0] [0] = Inl ConfigLengthMismatch"
    by simp
  from invalid_entry_deferred [OF acc, of "[1, 0]" "[0, 1]"]
  have b: "CapRelay_init header_pins [22] [1, 0] [0, 1] = Inl (ConfigPinCount 2)"
    by simp
  from invalid_entry_deferred [OF acc, of "[2]" "[0]"] obtain s where
    s: "CapRelay_init header_pins [22] [2] [0] = Inr s" "chg_config s = [2]"
    and d: "\<forall>name V k. select_config s name = Inr V \<longrightarrow> k < length V \<longrightarrow>
       V ! k \<noteq> 0 \<and> V ! k \<noteq> 1 \<longrightarrow> (\<forall>j<k. V ! j = 0 \<or> V ! j = 1) \<longrightarrow>
       fst (set_state s name) = Inl (InvalidRelayState (V ! k) k)"
    by auto
  have sel: "select_config s ''charge'' = Inr [2]"
    using s(2) by (simp add: select_config_charge)
  from d [rule_format, OF sel, of 0]
  have "fst (set_state s ''charge'') = Inl (InvalidRelayState 2 0)"
    by simp
  with s sel a b acc show ?thesis by blast
qed

subsection \<open>What a successful \<open>set_state\<close> returns\<close>




subsection \<open>A transition that fails part-way\<close>

text \<open>
  Claim C5. Let the per-relay operations below index \<open>k\<close> succeed (entries 0 or 1, relay
  numbers in range, devices working) and the one at \<open>k\<close> fail, for any of the three
  reasons: the entry is neither 0 nor 1, \<open>k\<close> is not a relay number (the vector is longer
  than the board), or the device of LED \<open>k\<close> cannot be driven. Then \<open>set_state\<close> raises that
  error, \<open>current_state\<close> keeps its value, the relays below \<open>k\<close> read back as the vector
  says, and the relays from \<open>k\<close> on are as they were: nothing is rolled back.
\<close>

theorem set_state_partial_failure:
  assumes sel: "select_config s name = Inr V"
    and k: "k < length V"
    and below: "\<forall>j<k. (V ! j = 0 \<or> V ! j = 1) \<and> \<not> broken j"
    and fits: "k \<le> num_relays s"
    and len: "num_relays s = length (board s)"
    and fails: "\<not> ((V ! k = 0 \<or> V ! k = 1) \<and> k < num_relays s \<and> \<not> broken k)"
  shows "fst (set_state_hw broken s name) =
           Inl (if V ! k \<noteq> 0 \<and> V ! k \<noteq> 1 then InvalidRelayState (V ! k) k
                else if k < num_relays s then HardwareError k
                else RelayNumberRange (int (num_relays s) - 1)) \<and>
         current_state (snd (set_state_hw broken s name)) = current_state s \<and>
         (\<forall>j<k. get_state_hw broken (snd (set_state_hw broken s name)) (int j) =
                  Inr (V ! j = 1)) \<and>
         (\<forall>j<num_relays s. k \<le> j \<longrightarrow>
            board (snd (set_state_hw broken s name)) ! j = board s ! j) \<and>
         length (board (snd (set_state_hw broken s name))) = length (board s)"
proof -
  let ?b = "map (\<lambda>v. v = 0) (take k V) @ drop k (board s)"
  have run: "set_state_hw broken s name =
     (Inl (if V ! k \<noteq> 0 \<and> V ! k \<noteq> 1 then InvalidRelayState (V ! k) k
           else if k < num_relays s then HardwareError k
           else RelayNumberRange (int (num_relays s) - 1)), s\<lparr>board := ?b\<rparr>)"
    using set_state_hw_fail [OF sel k below fits _ fails] len by simp
  have lb: "length ?b = length (board s)"
    using k fits len by simp
  have low: "get_state_hw broken (s\<lparr>board := ?b\<rparr>) (int j) = Inr (V ! j = 1)" if "j < k" for j
  proof -
    from that k fits len have "j < num_relays (s\<lparr>board := ?b\<rparr>)"
      and "j < length (board (s\<lparr>board := ?b\<rparr>))" by simp_all
    moreover have "\<not> broken j"
      using below that by simp
    ultimately have "get_state_hw broken (s\<lparr>board := ?b\<rparr>) (int j) = Inr (\<not> ?b ! j)"
      by (simp add: get_state_hw_in_range)
    moreover have "?b ! j = (V ! j = 0)"
      using that k by (simp add: nth_append)
    moreover have "V ! j = 0 \<or> V ! j = 1"
      using below that by simp
    ultimately show ?thesis by auto
  qed
  have high: "?b ! j = board s ! j" if "k \<le> j" for j
    using that k fits len by (simp add: nth_append min_def)
  from run lb low high show ?thesis by simp
qed

text \<open>
  Two runs. On the object of \<open>test.py\<close> with the device of LED 2 broken,
  \<open>set_state("charge")\<close> closes relays 0 and 1 and fails at relay 2. On the object with
  the charge vector \<open>[1, 0, 2, 1]\<close> and all devices working, it closes relay 0, opens
  relay 1 and fails at the entry 2.
\<close>

theorem set_state_partial_failure_witness:
  "fst (set_state_hw relay2_broken test_relay ''charge'') = Inl (HardwareError 2) \<and>
   current_state (snd (set_state_hw relay2_broken test_relay ''charge'')) = ''null'' \<and>
   get_state_hw relay2_broken (snd (set_state_hw relay2_broken test_relay ''charge'')) 0 =
     Inr True \<and>
   get_state_hw relay2_broken (snd (set_state_hw relay2_broken test_relay ''charge'')) 1 =
     Inr True \<and>
   board (snd (set_state_hw relay2_broken test_relay ''charge'')) ! 2 = True \<and>
   board (snd (set_state_hw relay2_broken test_relay ''charge'')) ! 3 = True \<and>
   fst (set_state_hw (\<lambda>j. False) faulty_relay ''charge'') = Inl (InvalidRelayState 2 2) \<and>
   current_state (snd (set_state_hw (\<lambda>j. False) faulty_relay ''charge'')) = ''null'' \<and>
   get_state_hw (\<lambda>j. False) (snd (set_state_hw (\<lambda>j. False) faulty_relay ''charge'')) 0 =
     Inr True \<and>
   get_state_hw (\<lambda>j. False) (snd (set_state_hw (\<lambda>j. False) faulty_relay ''charge'')) 1 =
     Inr False \<and>
   board (snd (set_state_hw (\<lambda>j. False) faulty_relay ''charge'')) ! 2 = True"
proof -
  have a: "select_config test_relay ''charge'' = Inr [1, 1, 0, 0]"
    by (simp add: select_config_charge test_relay_def)
  have b: "(2::nat) < length [1, 1, 0, 0 :: int]"
    by simp
  have c: "\<forall>j<2. ([1, 1, 0, 0 :: int] ! j = 0 \<or> [1, 1, 0, 0 :: int] ! j = 1) \<and> \<not> relay2_broken j"
    by (simp add: less_Suc_eq numeral_2_eq_2 relay2_broken_def)
  have d: "2 \<le> num_relays test_relay"
    by (simp add: test_relay_def)
  have e: "num_relays test_relay = length (board test_relay)"
    by (simp add: test_relay_def)
  have f: "\<not> (([1, 1, 0, 0 :: int] ! 2 = 0 \<or> [1, 1, 0, 0 :: int] ! 2 = 1) \<and>
               2 < num_relays test_relay \<and> \<not> relay2_broken 2)"
    by (simp add: relay2_broken_def)
  note t = set_state_partial_failure [OF a b c d e f]
  have t1: "fst (set_state_hw relay2_broken test_relay ''charge'') = Inl (HardwareError 2)"
    using t by (simp add: test_relay_def)
  have t2: "current_state (snd (set_state_hw relay2_broken test_relay ''charge'')) = ''null''"
    using t by (simp add: test_relay_def)
  have t3: "get_state_hw relay2_broken (snd (set_state_hw relay2_broken test_relay ''charge'')) 0 =
      Inr True"
    using t [THEN conjunct2, THEN conjunct2, THEN conjunct1, rule_format, of 0] by simp
  have t4: "get_state_hw relay2_broken (snd (set_state_hw relay2_broken test_relay ''charge'')) 1 =
      Inr True"
    using t [THEN conjunct2, THEN conjunct2, THEN conjunct1, rule_format, of 1] by simp
  have t5: "board (snd (set_state_hw relay2_broken test_relay ''charge'')) ! 2 = True"
    using t [THEN conjunct2, THEN conjunct2, THEN conjunct2, THEN conjunct1, rule_format, of 2]
    by (simp add: test_relay_def)
  have t6: "board (snd (set_state_hw relay2_broken test_relay ''charge'')) ! 3 = True"
    using t [THEN conjunct2, THEN conjunct2, THEN conjunct2, THEN conjunct1, rule_format, of 3]
    by (simp add: test_relay_def)
  have a': "select_config faulty_relay ''charge'' = Inr [1, 0, 2, 1]"
    by (simp add: select_config_charge faulty_relay_def)
  have b': "(2::nat) < length [1, 0, 2, 1 :: int]"
    by simp
  have c': "\<forall>j<2. ([1, 0, 2, 1 :: int] ! j = 0 \<or> [1, 0, 2, 1 :: int] ! j = 1) \<and> \<not> False"
    by (simp add: less_Suc_eq numeral_2_eq_2)
  have d': "2 \<le> num_relays faulty_relay"
    by (simp add: faulty_relay_def)
  have e': "num_relays faulty_relay = length (board faulty_relay)"
    by (simp add: faulty_relay_def)
  have f': "\<not> (([1, 0, 2, 1 :: int] ! 2 = 0 \<or> [1, 0, 2, 1 :: int] ! 2 = 1) \<and>
               2 < num_relays faulty_relay \<and> \<not> False)"
    by simp
  note u = set_state_partial_failure [of faulty_relay "''charge''" "[1, 0, 2, 1]" 2 "\<lambda>j. False",
      OF a' b' c' d' e' f']
  have u1: "fst (set_state_hw (\<lambda>j. False) faulty_relay ''charge'') = Inl (InvalidRelayState 2 2)"
    using u by simp
  have u2: "current_state (snd (set_state_hw (\<lambda>j. False) faulty_relay ''charge'')) = ''null''"
    using u by (simp add: faulty_relay_def)
  have u3: "get_state_hw (\<lambda>j. False) (snd (set_state_hw (\<lambda>j. False) faulty_relay ''charge'')) 0 =
      Inr True"
    using u [THEN conjunct2, THEN conjunct2, THEN conjunct1, rule_format, of 0] by simp
  have u4: "get_state_hw (\<lambda>j. False) (snd (set_state_hw (\<lambda>j. False) faulty_relay ''charge'')) 1 =
      Inr False"
    using u [THEN conjunct2, THEN conjunct2, THEN conjunct1, rule_format, of 1] by simp
  have u5: "board (snd (set_state_hw (\<lambda>j. False) faulty_relay ''charge'')) ! 2 = True"
    using u [THEN conjunct2, THEN conjunct2, THEN conjunct2, THEN conjunct1, rule_format, of 2]
    by (simp add: faulty_relay_def)
  from t1 t2 t3 t4 t5 t6 u1 u2 u3 u4 u5 show ?thesis by blast
qed

subsection \<open>After construction\<close>

text \<open>
  Against claim C6 as stated. The claim covers every \<open>N \<ge> 0\<close>. With no pin at all
  (\<open>N = 0\<close>) \<open>CapRelay([], [], [])\<close> yields no object: \<open>LEDBoard()\<close> raises
  \<open>GPIOPinMissing\<close> in the base constructor.
\<close>

theorem no_relays_not_constructed:
  "CapRelay_init header_pins [] [] [] = Inl GPIOPinMissing"
  by (simp add: CapRelay_init_refused LEDBoard_empty)

text \<open>
  Claim C6, amended. For every \<open>N \<ge> 1\<close>, every list of \<open>N\<close> distinct pins that the pin
  factory accepts and every pair of vectors of length \<open>N\<close>, construction succeeds,
  \<open>current_state\<close> is \<open>"null"\<close> and \<open>get_state(i)\<close> is false (open) for every relay \<open>i\<close>.
\<close>

theorem CapRelay_init_null_open:
  assumes "pins_accepted pf pins" and "length chg = length pins" and "length dmp = length pins"
  shows "\<exists>s. CapRelay_init pf pins chg dmp = Inr s \<and> current_state s = ''null'' \<and>
             num_relays s = length pins \<and>
             (\<forall>i<length pins. get_state s (int i) = Inr False)"
  using assms by (simp add: CapRelay_init_ok get_state_in_range)

theorem CapRelay_init_null_open_witness:
  "pins_accepted header_pins [22, 23, 24, 25] \<and>
   length [1, 1, 0, 0 :: int] = length [22, 23, 24, 25 :: int] \<and>
   length [0, 0, 1, 1 :: int] = length [22, 23, 24, 25 :: int] \<and>
   CapRelay_init header_pins [22, 23, 24, 25] [1, 1, 0, 0] [0, 0, 1, 1] = Inr test_relay \<and>
   current_state test_relay = ''null'' \<and>
   get_state test_relay (int 3) = Inr False"
proof -
  note acc = header_pins_accepted
  have l: "length [1, 1, 0, 0 :: int] = length [22, 23, 24, 25 :: int]"
    "length [0, 0, 1, 1 :: int] = length [22, 23, 24, 25 :: int]"
    by simp_all
  from CapRelay_init_null_open [OF acc l] obtain s where
    s: "CapRelay_init header_pins [22, 23, 24, 25] [1, 1, 0, 0] [0, 0, 1, 1] = Inr s"
    "current_state s = ''null''"
    "\<forall>i<length [22, 23, 24, 25 :: int]. get_state s (int i) = Inr False"
    by blast
  from s(1) have eq: "s = test_relay"
    by (simp add: test_relay_init)
  from s(3) [rule_format, of 3] have "get_state s (int 3) = Inr False"
    by simp
  with s(1,2) eq l acc show ?thesis by simp
qed

subsection \<open>Unknown state names\<close>

text \<open>
  Claim C7. A name that, lowercased, is none of \<open>"charge"\<close>, \<open>"dump"\<close>, \<open>"null"\<close> makes
  \<open>set_state\<close> raise \<open>"Invalid state: {name}"\<close>; the object is unchanged, so
  \<open>current_state\<close> keeps its value and no relay is toggled.
\<close>

theorem set_state_unknown_name:
  assumes "lower name \<noteq> ''charge''" and "lower name \<noteq> ''dump''" and "lower name \<noteq> ''null''"
  shows "set_state s name = (Inl (InvalidState name), s)"
  using assms by (simp add: set_state_def select_config_def)

theorem set_state_unknown_name_witness:
  "lower ''Bogus'' \<noteq> ''charge'' \<and> lower ''Bogus'' \<noteq> ''dump'' \<and> lower ''Bogus'' \<noteq> ''null'' \<and>
   set_state test_relay ''Bogus'' = (Inl (InvalidState ''Bogus''), test_relay)"
proof -
  have n: "lower ''Bogus'' \<noteq> ''charge''" "lower ''Bogus'' \<noteq> ''dump''" "lower ''Bogus'' \<noteq> ''null''"
    by (simp_all add: lower_bogus)
  from set_state_unknown_name [OF n, of test_relay] n show ?thesis
    by blast
qed

subsection \<open>Relay numbers out of range\<close>

text \<open>
  Claim C8. For a relay number below 0 or not below \<open>num_relays\<close>, each of \<open>close\<close>,
  \<open>open\<close> and \<open>get_state\<close> raises the range error, and the object after the call is the
  object before it: the check comes before any access to the board.
\<close>

theorem index_out_of_range:
  assumes "relay_num < 0 \<or> int (num_relays s) \<le> relay_num"
  shows "close s relay_num = (Inl (RelayNumberRange (int (num_relays s) - 1)), s) \<and>
         open_relay s relay_num = (Inl (RelayNumberRange (int (num_relays s) - 1)), s) \<and>
         get_state s relay_num = Inl (RelayNumberRange (int (num_relays s) - 1))"
  using assms
  by (auto simp: close_def open_relay_def get_state_def validate_relay_number_def)

theorem index_out_of_range_witness:
  "((4::int) < 0 \<or> int (num_relays test_relay) \<le> 4) \<and>
   close test_relay 4 = (Inl (RelayNumberRange 3), test_relay) \<and>
   ((-1::int) < 0 \<or> int (num_relays test_relay) \<le> -1) \<and>
   open_relay test_relay (-1) = (Inl (RelayNumberRange 3), test_relay) \<and>
   get_state test_relay (-1) = Inl (RelayNumberRange 3)"
proof -
  have hi: "(4::int) < 0 \<or> int (num_relays test_relay) \<le> 4"
    by (simp add: test_relay_def)
  have lo: "(-1::int) < 0 \<or> int (num_relays test_relay) \<le> -1"
    by simp
  have n: "int (num_relays test_relay) - 1 = 3"
    by (simp add: test_relay_def)
  from index_out_of_range [OF hi] index_out_of_range [OF lo] hi lo show ?thesis
    unfolding n by blast
qed

subsection \<open>\<open>close_all\<close>\<close>

text \<open>
  Claim C9. \<open>close_all()\<close> leaves \<open>current_state\<close> as it was and every relay closed:
  \<open>get_state(i)\<close> is true for every relay \<open>i\<close>.
\<close>

theorem close_all_keeps_current_state:
  fixes s :: cap_relay
  assumes "num_relays s = length (board s)"
  shows "current_state (close_all s) = current_state s \<and>
         (\<forall>i<num_relays s. get_state (close_all s) (int i) = Inr True)"
  using assms by (simp add: close_all_def get_state_in_range)

theorem close_all_keeps_current_state_witness:
  "num_relays test_relay = length (board test_relay) \<and>
   current_state (close_all test_relay) = ''null'' \<and>
   get_state (close_all test_relay) (int 2) = Inr True"
proof -
  have w: "num_relays test_relay = length (board test_relay)"
    by (simp add: test_relay_def)
  note t = close_all_keeps_current_state [OF w]
  from t have "current_state (close_all test_relay) = ''null''"
    by (simp add: test_relay_def)
  moreover from t [THEN conjunct2, rule_format, of 2]
  have "get_state (close_all test_relay) (int 2) = Inr True"
    by (simp add: test_relay_def)
  ultimately show ?thesis using w by blast
qed

subsection \<open>Closed is unlit\<close>

text \<open>
  Claim C10. For a relay number \<open>i\<close> in range, \<open>close(i)\<close> turns LED \<open>i\<close> off (unlit),
  \<open>open(i)\<close> turns it on (lit), and \<open>get_state(i)\<close> is true exactly when LED \<open>i\<close> is not
  lit; so \<open>get_state\<close> is true after \<open>close\<close> and false after \<open>open\<close>.
\<close>

theorem relay_state_inverts_lit:
  assumes "0 \<le> i" and "i < int (num_relays s)" and "num_relays s = length (board s)"
  shows "close s i = (Inr (), s\<lparr>board := (board s)[nat i := False]\<rparr>) \<and>
         open_relay s i = (Inr (), s\<lparr>board := (board s)[nat i := True]\<rparr>) \<and>
         get_state s i = Inr (\<not> board s ! nat i) \<and>
         get_state (snd (close s i)) i = Inr True \<and>
         get_state (snd (open_relay s i)) i = Inr False"
  using assms
  by (simp add: close_def open_relay_def get_state_def validate_relay_number_def board_index_def)

theorem relay_state_inverts_lit_witness:
  "(0::int) \<le> 1 \<and> 1 < int (num_relays test_relay) \<and>
   num_relays test_relay = length (board test_relay) \<and>
   close test_relay 1 = (Inr (), test_relay\<lparr>board := [True, False, True, True]\<rparr>) \<and>
   open_relay test_relay 1 = (Inr (), test_relay\<lparr>board := [True, True, True, True]\<rparr>) \<and>
   get_state test_relay 1 = Inr False \<and>
   get_state (snd (close test_relay 1)) 1 = Inr True"
proof -
  have a: "(0::int) \<le> 1" by simp
  have b: "1 < int (num_relays test_relay)" by (simp add: test_relay_def)
  have c: "num_relays test_relay = length (board test_relay)" by (simp add: test_relay_def)
  have d: "(board test_relay)[nat 1 := False] = [True, False, True, True]"
    "(board test_relay)[nat 1 := True] = [True, True, True, True]"
    "(\<not> board test_relay ! nat 1) = False"
    by (simp_all add: test_relay_def)
  from relay_state_inverts_lit [OF a b c] a b c show ?thesis
    unfolding d by blast
qed

end
